theory Spec2Isabelle
  imports Main "HOL-Library.Word"
begin

section \<open>Go values: panics, errors and results\<close>

text \<open>
  A Go function of the controller either panics, returns a non-nil \<open>error\<close>, or returns
  normally. The three outcomes are kept apart: a run-time panic (index out of range,
  assignment to an entry of a nil map, nil pointer dereference) is not an \<open>error\<close> value
  and is not caught by the \<open>if err != nil\<close> checks of the callers.
\<close>

datatype panic = IndexOutOfRange | NilMapAssignment | NilPointerDereference

datatype error =
    CouldNotFindAnnotation string  \<comment> \<open>\<open>fmt.Errorf("could not find %s annotation", ...)\<close>\<close>
  | TimeParseError string          \<comment> \<open>\<open>*time.ParseError\<close>, carrying the offending text\<close>
  | NumError string                \<comment> \<open>\<open>*strconv.NumError\<close> of \<open>Atoi\<close>, carrying the text\<close>
  | StatusNotFound                 \<comment> \<open>API status error, reason NotFound\<close>
  | StatusConflict                 \<comment> \<open>API status error, reason Conflict\<close>
  | StatusOther                    \<comment> \<open>any other failure of an API call\<close>
  | FailedToGet error              \<comment> \<open>\<open>fmt.Errorf("Failed to get latest version of Deployment: %v", getErr)\<close>\<close>
  | UpdateFailed error             \<comment> \<open>\<open>fmt.Errorf("Update failed: %v", retryErr)\<close>\<close>
  | ConfigError                    \<comment> \<open>failure of \<open>LoadK8SClientConfigFile\<close>\<close>
  | DecodeError                    \<comment> \<open>failure of the JSON decoder on a request body\<close>

datatype 'a result = Panics panic | Fails error | Ok 'a

section \<open>Strings (package strings)\<close>

text \<open>
  \<open>strings.Split(s, sep)\<close> for a separator of one byte, which is how the controller
  calls it (\<open>"-"\<close>): the substrings between the separators, one more than there are
  separators, so never an empty slice.
\<close>

fun Split :: "string \<Rightarrow> char \<Rightarrow> string list" where
  "Split [] sep = [[]]"
| "Split (c # cs) sep =
     (if c = sep then [] # Split cs sep
      else (case Split cs sep of [] \<Rightarrow> [[c]] | t # ts \<Rightarrow> (c # t) # ts))"

text \<open>\<open>strings.Trim(s, cutset)\<close>: leading and trailing bytes of the cutset removed.\<close>

definition Trim :: "string \<Rightarrow> string \<Rightarrow> string" where
  "Trim s cutset =
     rev (dropWhile (\<lambda>c. c \<in> set cutset) (rev (dropWhile (\<lambda>c. c \<in> set cutset) s)))"

text \<open>
  \<open>strings.ToLower\<close> on the ASCII letters. The controller only compares the result
  with \<open>"true"\<close>, and no rune outside ASCII has one of the letters t, r, u, e as its
  lower case, so the comparison is the same as with Go's Unicode mapping.
\<close>

definition toLowerByte :: "char \<Rightarrow> char" where
  "toLowerByte c =
     (case map_of (zip ''ABCDEFGHIJKLMNOPQRSTUVWXYZ'' ''abcdefghijklmnopqrstuvwxyz'') c of
        Some l \<Rightarrow> l
      | None \<Rightarrow> c)"

definition ToLower :: "string \<Rightarrow> string" where
  "ToLower s = map toLowerByte s"

text \<open>Slice indexing \<open>tokens[i]\<close>: out of range is a run-time panic.\<close>

definition index :: "'a list \<Rightarrow> nat \<Rightarrow> 'a result" where
  "index xs i = (if i < length xs then Ok (xs ! i) else Panics IndexOutOfRange)"

section \<open>Clock times (package time, layout 15:04)\<close>

text \<open>
  Every \<open>time.Time\<close> of the controller comes from \<open>time.Parse("15:04", ...)\<close>, which
  yields the given hour and minute on 1 January of year 0, UTC, with zero seconds.
  Such a value is its hour and its minute; \<open>Before\<close> and \<open>After\<close> compare the
  instants, here in seconds since the start of that day.
\<close>

record Time =
  Hour :: nat
  Minute :: nat

definition instant :: "Time \<Rightarrow> nat" where
  "instant t = Hour t * 3600 + Minute t * 60"

definition Before :: "Time \<Rightarrow> Time \<Rightarrow> bool" where
  "Before t u = (instant t < instant u)"

definition After :: "Time \<Rightarrow> Time \<Rightarrow> bool" where
  "After t u = (instant t > instant u)"

definition isDigit :: "char \<Rightarrow> bool" where
  "isDigit c = (48 \<le> (of_char c :: nat) \<and> (of_char c :: nat) \<le> 57)"

definition digitVal :: "char \<Rightarrow> nat" where
  "digitVal c = of_char c - 48"

text \<open>
  \<open>getnum(s, fixed)\<close> of package time: a number of one or two digits at the start
  of \<open>s\<close> and the rest of \<open>s\<close>; with \<open>fixed\<close>, two digits are required.
\<close>

definition getnum :: "string \<Rightarrow> bool \<Rightarrow> (nat \<times> string) option" where
  "getnum s fixed =
     (case s of
        [] \<Rightarrow> None
      | c0 # r0 \<Rightarrow>
          if \<not> isDigit c0 then None
          else (case r0 of
                  [] \<Rightarrow> if fixed then None else Some (digitVal c0, r0)
                | c1 # r1 \<Rightarrow>
                    if \<not> isDigit c1 then (if fixed then None else Some (digitVal c0, r0))
                    else Some (digitVal c0 * 10 + digitVal c1, r1)))"

text \<open>
  \<open>time.Parse("15:04", value)\<close>: an hour of one or two digits below 24, a colon, a
  minute of exactly two digits below 60, and nothing after it.
\<close>

definition time_Parse :: "string \<Rightarrow> Time result" where
  "time_Parse v =
     (case getnum v False of
        None \<Rightarrow> Fails (TimeParseError v)
      | Some (hour, v1) \<Rightarrow>
          if 24 \<le> hour then Fails (TimeParseError v)
          else (case v1 of
                  [] \<Rightarrow> Fails (TimeParseError v)
                | c # v2 \<Rightarrow>
                    if c \<noteq> CHR '':'' then Fails (TimeParseError v)
                    else (case getnum v2 True of
                            None \<Rightarrow> Fails (TimeParseError v)
                          | Some (minute, v3) \<Rightarrow>
                              if 60 \<le> minute then Fails (TimeParseError v)
                              else if v3 \<noteq> [] then Fails (TimeParseError v)
                              else Ok \<lparr>Hour = hour, Minute = minute\<rparr>)))"

section \<open>The schedule: TimeRange, InRangeNow, parseScheduleAnnotation\<close>

definition REPLICAS_MEMORY_ANNOTATION :: string where
  "REPLICAS_MEMORY_ANNOTATION = ''scheduler.replicas-memory''"

definition SCHEDULE_ANNOTATION :: string where
  "SCHEDULE_ANNOTATION = ''scheduler.off-schedule''"

definition ENABLED_ANNOTATION :: string where
  "ENABLED_ANNOTATION = ''scheduler.enabled''"

text \<open>\<open>DeploymentState\<close> is a Go \<open>bool\<close>: \<open>ENABLED = true\<close>, \<open>DISABLED = false\<close>.\<close>

type_synonym DeploymentState = bool

definition ENABLED :: DeploymentState where
  "ENABLED = True"

definition DISABLED :: DeploymentState where
  "DISABLED = False"

record TimeRange =
  Start :: Time
  End :: Time

text \<open>
  \<open>InRangeNow\<close> reads the wall clock, formats it as \<open>15:04\<close> and parses it back, which
  leaves the hour and minute of the current time. That reading is the argument \<open>now\<close>.
\<close>

definition InRangeNow :: "TimeRange \<Rightarrow> Time \<Rightarrow> bool" where
  "InRangeNow t now =
     (if Before (End t) (Start t)
      then After now (Start t) \<or> Before now (End t)
      else After now (Start t) \<and> Before now (End t))"

text \<open>
  A Go \<open>map[string]string\<close> may be nil: \<open>None\<close> is the nil map. Reading a nil map finds
  nothing, deleting from it does nothing, assigning to an entry of it panics.
\<close>

type_synonym annotations = "(string \<rightharpoonup> string) option"

definition mapGet :: "annotations \<Rightarrow> string \<Rightarrow> string option" where
  "mapGet a k = (case a of None \<Rightarrow> None | Some m \<Rightarrow> m k)"

definition mapSet :: "annotations \<Rightarrow> string \<Rightarrow> string \<Rightarrow> annotations result" where
  "mapSet a k v = (case a of None \<Rightarrow> Panics NilMapAssignment | Some m \<Rightarrow> Ok (Some (m(k \<mapsto> v))))"

definition mapDelete :: "annotations \<Rightarrow> string \<Rightarrow> annotations" where
  "mapDelete a k = (case a of None \<Rightarrow> None | Some m \<Rightarrow> Some (m(k := None)))"

definition parseScheduleAnnotation :: "annotations \<Rightarrow> TimeRange result" where
  "parseScheduleAnnotation annotations =
     (case mapGet annotations SCHEDULE_ANNOTATION of
        None \<Rightarrow> Fails (CouldNotFindAnnotation SCHEDULE_ANNOTATION)
      | Some scheduleText \<Rightarrow>
          (let tokens = Split scheduleText CHR ''-'' in
           case index tokens 0 of
             Panics p \<Rightarrow> Panics p
           | Fails e \<Rightarrow> Fails e
           | Ok token0 \<Rightarrow>
               (case time_Parse (Trim token0 '' '') of
                  Panics p \<Rightarrow> Panics p
                | Fails err \<Rightarrow> Fails err
                | Ok start \<Rightarrow>
                    (case index tokens 1 of
                       Panics p \<Rightarrow> Panics p
                     | Fails e \<Rightarrow> Fails e
                     | Ok token1 \<Rightarrow>
                         (case time_Parse (Trim token1 '' '') of
                            Panics p \<Rightarrow> Panics p
                          | Fails err \<Rightarrow> Fails err
                          | Ok end' \<Rightarrow> Ok \<lparr>Start = start, End = end'\<rparr>)))))"

section \<open>Decimal integers (package strconv)\<close>

fun digitsOf :: "nat \<Rightarrow> string" where
  "digitsOf n =
     (if n < 10 then [''0123456789'' ! n]
      else digitsOf (n div 10) @ [''0123456789'' ! (n mod 10)])"

declare digitsOf.simps [simp del]

text \<open>\<open>strconv.Itoa\<close>: the decimal text of a Go \<open>int\<close>.\<close>

definition Itoa :: "int \<Rightarrow> string" where
  "Itoa i = (if i < 0 then CHR ''-'' # digitsOf (nat (- i)) else digitsOf (nat i))"

text \<open>
  \<open>strconv.Atoi\<close> with a Go \<open>int\<close> of 64 bits: an optional sign, then decimal digits
  only, and a value that fits in 64 bits. Every failure is a \<open>*NumError\<close> carrying the
  text; whether its cause is the syntax or the range is not kept apart.
\<close>

definition Atoi :: "string \<Rightarrow> int result" where
  "Atoi s =
     (case s of
        [] \<Rightarrow> Fails (NumError s)
      | c # r \<Rightarrow>
          (let ds = (if c = CHR ''-'' \<or> c = CHR ''+'' then r else s);
               n = foldl (\<lambda>n ch. n * 10 + digitVal ch) 0 ds
           in if ds = [] then Fails (NumError s)
              else if \<not> list_all isDigit ds then Fails (NumError s)
              else if c = CHR ''-''
                   then (if 2 ^ 63 < n then Fails (NumError s) else Ok (- int n))
                   else (if 2 ^ 63 \<le> n then Fails (NumError s) else Ok (int n))))"

section \<open>Deployments and the cluster API\<close>

text \<open>
  The fields of \<open>apps_v1.Deployment\<close> that the controller reads and writes.
  \<open>Spec.Replicas\<close> is a \<open>*int32\<close>: \<open>None\<close> is the nil pointer. \<open>Annotations\<close> is a
  map that may be nil.
\<close>

record Deployment =
  Namespace :: string
  Name :: string
  Annotations :: annotations
  Replicas :: "32 word option"

text \<open>
  The cluster behind the clientset: the deployments it stores, by namespace and name,
  and the answers of the API server to the coming \<open>Update\<close> calls. \<open>Accept\<close> lets
  the write through, \<open>Conflict\<close> refuses it as a write conflict (another writer came
  first), \<open>Reject\<close> refuses it for any other reason. When the list is used up every
  write is let through. \<open>Get\<close> fails only for a deployment that is not stored, and a
  write to a deployment that is not stored is refused as not found. A refused write
  leaves the stored deployments as they are.
\<close>

datatype verdict = Accept | Conflict | Reject

record cluster =
  objects :: "string \<times> string \<rightharpoonup> annotations \<times> 32 word option"
  verdicts :: "verdict list"

definition Get :: "cluster \<Rightarrow> string \<Rightarrow> string \<Rightarrow> Deployment result" where
  "Get c namespace name =
     (case objects c (namespace, name) of
        None \<Rightarrow> Fails StatusNotFound
      | Some (a, r) \<Rightarrow> Ok \<lparr>Namespace = namespace, Name = name, Annotations = a, Replicas = r\<rparr>)"

definition store :: "cluster \<Rightarrow> string \<Rightarrow> Deployment \<Rightarrow> unit result \<times> cluster" where
  "store c namespace d =
     (case objects c (namespace, Name d) of
        None \<Rightarrow> (Fails StatusNotFound, c)
      | Some old \<Rightarrow>
          (Ok (), c\<lparr>objects := (objects c)((namespace, Name d) \<mapsto> (Annotations d, Replicas d))\<rparr>))"

definition Update :: "cluster \<Rightarrow> string \<Rightarrow> Deployment \<Rightarrow> unit result \<times> cluster" where
  "Update c namespace d =
     (case verdicts c of
        [] \<Rightarrow> store c namespace d
      | v # vs \<Rightarrow>
          (case v of
             Accept \<Rightarrow> store (c\<lparr>verdicts := vs\<rparr>) namespace d
           | Conflict \<Rightarrow> (Fails StatusConflict, c\<lparr>verdicts := vs\<rparr>)
           | Reject \<Rightarrow> (Fails StatusOther, c\<lparr>verdicts := vs\<rparr>)))"

text \<open>
  \<open>retry.RetryOnConflict(backoff, fn)\<close>: \<open>fn\<close> is run until it returns nil or an
  error that is not a conflict, at most \<open>backoff.Steps\<close> times; when the steps are used
  up the last conflict is returned. \<open>errors.IsConflict\<close> holds of the API status error
  only, not of an error that \<open>fmt.Errorf\<close> built from it with \<open>%v\<close>. The pauses
  between the attempts are not modelled.
\<close>

definition IsConflict :: "error \<Rightarrow> bool" where
  "IsConflict e = (e = StatusConflict)"

fun retryLoop ::
  "nat \<Rightarrow> (cluster \<Rightarrow> unit result \<times> cluster) \<Rightarrow> error option \<Rightarrow> cluster \<Rightarrow> unit result \<times> cluster"
where
  "retryLoop 0 fn lastErr c = ((case lastErr of None \<Rightarrow> Ok () | Some e \<Rightarrow> Fails e), c)"
| "retryLoop (Suc n) fn lastErr c =
     (case fn c of
        (Ok u, c') \<Rightarrow> (Ok (), c')
      | (Fails e, c') \<Rightarrow> if IsConflict e then retryLoop n fn (Some e) c' else (Fails e, c')
      | (Panics p, c') \<Rightarrow> (Panics p, c'))"

definition RetryOnConflict ::
  "nat \<Rightarrow> (cluster \<Rightarrow> unit result \<times> cluster) \<Rightarrow> cluster \<Rightarrow> unit result \<times> cluster"
where
  "RetryOnConflict steps fn c = retryLoop steps fn None c"

text \<open>\<open>retry.DefaultRetry\<close> has \<open>Steps: 5\<close>.\<close>

definition DefaultRetry :: nat where
  "DefaultRetry = 5"

section \<open>ToggleDeployment and AttemptToggleDeployment\<close>

text \<open>The function literal that \<open>ToggleDeployment\<close> hands to \<open>RetryOnConflict\<close>.\<close>

definition toggleAttempt ::
  "string \<Rightarrow> string \<Rightarrow> DeploymentState \<Rightarrow> cluster \<Rightarrow> unit result \<times> cluster"
where
  "toggleAttempt namespace deployment targetState c =
     (case Get c namespace deployment of
        Panics p \<Rightarrow> (Panics p, c)
      | Fails getErr \<Rightarrow> (Fails (FailedToGet getErr), c)
      | Ok deploymentObj \<Rightarrow>
          (case Replicas deploymentObj of
             None \<Rightarrow> (Panics NilPointerDereference, c)
           | Some replicas \<Rightarrow>
               (case (if replicas \<noteq> 0
                      then mapSet (Annotations deploymentObj) REPLICAS_MEMORY_ANNOTATION
                             (Itoa (sint replicas))
                      else Ok (Annotations deploymentObj)) of
                  Panics p \<Rightarrow> (Panics p, c)
                | Fails e \<Rightarrow> (Fails e, c)
                | Ok memorized \<Rightarrow>
                    if targetState = DISABLED then
                      (if replicas = 0 then (Ok (), c)
                       else Update c namespace
                              (deploymentObj\<lparr>Annotations := memorized, Replicas := Some 0\<rparr>))
                    else
                      (if replicas \<noteq> 0 then (Ok (), c)
                       else (case mapGet memorized REPLICAS_MEMORY_ANNOTATION of
                               Some value \<Rightarrow>
                                 (case Atoi value of
                                    Panics p \<Rightarrow> (Panics p, c)
                                  | Fails err \<Rightarrow> (Fails err, c)
                                  | Ok i \<Rightarrow>
                                      Update c namespace
                                        (deploymentObj
                                           \<lparr>Annotations := mapDelete memorized REPLICAS_MEMORY_ANNOTATION,
                                            Replicas := Some (word_of_int i)\<rparr>))
                             | None \<Rightarrow>
                                 Update c namespace (deploymentObj\<lparr>Annotations := memorized\<rparr>))))))"

definition ToggleDeployment ::
  "cluster \<Rightarrow> string \<Rightarrow> string \<Rightarrow> DeploymentState \<Rightarrow> unit result \<times> cluster"
where
  "ToggleDeployment clientset namespace deployment targetState =
     (case RetryOnConflict DefaultRetry (toggleAttempt namespace deployment targetState) clientset of
        (Panics p, c') \<Rightarrow> (Panics p, c')
      | (Fails retryErr, c') \<Rightarrow> (Fails (UpdateFailed retryErr), c')
      | (Ok u, c') \<Rightarrow> (Ok (), c'))"

text \<open>
  \<open>AttemptToggleDeployment\<close> works on the deployment object of its caller and changes it
  in place; the object as the call leaves it is returned with the result.
\<close>

definition AttemptToggleDeployment ::
  "cluster \<Rightarrow> Deployment \<Rightarrow> DeploymentState \<Rightarrow> unit result \<times> Deployment \<times> cluster"
where
  "AttemptToggleDeployment clientset deployment targetState =
     (let namespace = Namespace deployment in
      case Replicas deployment of
        None \<Rightarrow> (Panics NilPointerDereference, deployment, clientset)
      | Some replicas \<Rightarrow>
          (case (if replicas \<noteq> 0
                 then mapSet (Annotations deployment) REPLICAS_MEMORY_ANNOTATION
                        (Itoa (sint replicas))
                 else Ok (Annotations deployment)) of
             Panics p \<Rightarrow> (Panics p, deployment, clientset)
           | Fails e \<Rightarrow> (Fails e, deployment, clientset)
           | Ok memorized \<Rightarrow>
               (let d1 = deployment\<lparr>Annotations := memorized\<rparr> in
                if targetState = DISABLED then
                  (if replicas = 0 then (Ok (), d1, clientset)
                   else (let d2 = d1\<lparr>Replicas := Some 0\<rparr> in
                         case Update clientset namespace d2 of (updateErr, c') \<Rightarrow> (updateErr, d2, c')))
                else
                  (if replicas \<noteq> 0 then (Ok (), d1, clientset)
                   else (case mapGet memorized REPLICAS_MEMORY_ANNOTATION of
                           Some value \<Rightarrow>
                             (case Atoi value of
                                Panics p \<Rightarrow> (Panics p, d1, clientset)
                              | Fails err \<Rightarrow> (Fails err, d1, clientset)
                              | Ok i \<Rightarrow>
                                  (let d2 = d1\<lparr>Annotations := mapDelete memorized REPLICAS_MEMORY_ANNOTATION,
                                               Replicas := Some (word_of_int i)\<rparr> in
                                   case Update clientset namespace d2 of
                                     (updateErr, c') \<Rightarrow> (updateErr, d2, c')))
                         | None \<Rightarrow>
                             (case Update clientset namespace d1 of
                                (updateErr, c') \<Rightarrow> (updateErr, d1, c')))))))"

section \<open>The reconciliation tick: loopIteration\<close>

text \<open>
  The informer's indexer as the tick sees it: \<open>ListKeys()\<close>, in the order of the
  iteration, and \<open>GetByKey(key)\<close>, which fails, finds nothing, or finds an object that
  is a \<open>*apps_v1.Deployment\<close> or something else.
\<close>

datatype object = DeploymentObject Deployment | OtherObject

record Indexer =
  ListKeys :: "string list"
  GetByKey :: "string \<Rightarrow> object option result"

text \<open>What \<open>loopIteration\<close> itself writes to the log.\<close>

datatype logEntry =
    ErrorWhileChecking string  \<comment> \<open>\<open>slog.Error("Error while checking deployment ...")\<close>\<close>
  | CheckingDeployment string  \<comment> \<open>\<open>slog.Info("Checking deployment ...")\<close>\<close>
  | LoggedError error          \<comment> \<open>\<open>slog.Error(fmt.Sprintf("%s", err))\<close>\<close>

text \<open>
  The body of the \<open>for\<close> loop for one key. \<open>None\<close> in the first component is the
  end of the body, by \<open>continue\<close> or by reaching its last line; \<open>Some p\<close> is a panic,
  which leaves the loop. The wall clock reading \<open>now\<close> is taken as the same for the
  whole tick.
\<close>

definition loopBody ::
  "Indexer \<Rightarrow> Time \<Rightarrow> string \<Rightarrow> cluster \<Rightarrow> logEntry list \<Rightarrow> panic option \<times> cluster \<times> logEntry list"
where
  "loopBody ix now deploymentName c lg =
     (case GetByKey ix deploymentName of
        Panics p \<Rightarrow> (Some p, c, lg)
      | Fails err \<Rightarrow> (None, c, lg @ [ErrorWhileChecking deploymentName])
      | Ok None \<Rightarrow> (None, c, lg)
      | Ok (Some OtherObject) \<Rightarrow> (None, c, lg)
      | Ok (Some (DeploymentObject obj)) \<Rightarrow>
          (let annotations = Annotations obj in
           case mapGet annotations ENABLED_ANNOTATION of
             None \<Rightarrow> (None, c, lg)
           | Some value \<Rightarrow>
               if ToLower value \<noteq> ''true'' then (None, c, lg)
               else
                 (let lg1 = lg @ [CheckingDeployment deploymentName] in
                  case parseScheduleAnnotation annotations of
                    Panics p \<Rightarrow> (Some p, c, lg1)
                  | Fails err \<Rightarrow> (None, c, lg1 @ [LoggedError err])
                  | Ok schedule \<Rightarrow>
                      if InRangeNow schedule now then
                        (case ToggleDeployment c (Namespace obj) (Name obj) DISABLED of
                           (Panics p, c') \<Rightarrow> (Some p, c', lg1)
                         | (Fails err, c') \<Rightarrow> (None, c', lg1 @ [LoggedError err])
                         | (Ok u, c') \<Rightarrow> (None, c', lg1))
                      else
                        (case ToggleDeployment c (Namespace obj) (Name obj) ENABLED of
                           (Panics p, c') \<Rightarrow> (Some p, c', lg1)
                         | (Fails err, c') \<Rightarrow> (None, c', lg1 @ [LoggedError err])
                         | (Ok u, c') \<Rightarrow> (None, c', lg1)))))"

fun loopOver ::
  "Indexer \<Rightarrow> Time \<Rightarrow> string list \<Rightarrow> cluster \<Rightarrow> logEntry list \<Rightarrow> panic option \<times> cluster \<times> logEntry list"
where
  "loopOver ix now [] c lg = (None, c, lg)"
| "loopOver ix now (deploymentName # rest) c lg =
     (case loopBody ix now deploymentName c lg of
        (Some p, c', lg') \<Rightarrow> (Some p, c', lg')
      | (None, c', lg') \<Rightarrow> loopOver ix now rest c' lg')"

definition loopIteration ::
  "Indexer \<Rightarrow> Time \<Rightarrow> cluster \<Rightarrow> panic option \<times> cluster \<times> logEntry list"
where
  "loopIteration ix now c = loopOver ix now (ListKeys ix) c []"

section \<open>The manual control surface: /scaleDown and /scaleUp\<close>

text \<open>
  An \<open>http.ResponseWriter\<close>: the status code, fixed by the first \<open>WriteHeader\<close> (a
  write before any \<open>WriteHeader\<close> fixes it at 200), and what was written to the body.
\<close>

datatype line = Text string | ErrorText error

record ResponseWriter =
  status :: "nat option"
  written :: "line list"

definition WriteHeader :: "ResponseWriter \<Rightarrow> nat \<Rightarrow> ResponseWriter" where
  "WriteHeader w code = (if status w = None then w\<lparr>status := Some code\<rparr> else w)"

definition Fprintln :: "ResponseWriter \<Rightarrow> line \<Rightarrow> ResponseWriter" where
  "Fprintln w l = (WriteHeader w 200)\<lparr>written := written w @ [l]\<rparr>"

definition http_Error :: "ResponseWriter \<Rightarrow> line \<Rightarrow> nat \<Rightarrow> ResponseWriter" where
  "http_Error w l code = Fprintln (WriteHeader w code) l"

text \<open>
  \<open>JsonResourceSpecifier\<close>, and a request: its method and its body, which is nil, or
  is not the JSON of a \<open>JsonResourceSpecifier\<close>, or decodes to one.
\<close>

datatype JsonResourceSpecifier = JsonResourceSpecifier (namespace: string) (name: string)

datatype body = Undecodable | Decodes JsonResourceSpecifier

record Request =
  Method :: string
  Body :: "body option"

text \<open>
  The two handlers. \<open>loadErr\<close> is the error of \<open>LoadK8SClientConfigFile\<close>, if it has
  one; otherwise \<open>c\<close> is the cluster its clientset talks to. The \<open>slog.Warn\<close> lines
  are not modelled.
\<close>

definition scaleDown ::
  "error option \<Rightarrow> cluster \<Rightarrow> Request \<Rightarrow> ResponseWriter result \<times> cluster"
where
  "scaleDown loadErr c r =
     (let w0 = \<lparr>status = None, written = []\<rparr>;
          w = (if Method r \<noteq> ''POST'' then WriteHeader w0 501 else w0)
      in case Body r of
           None \<Rightarrow> (Ok (http_Error w (Text ''Please send a request body'') 400), c)
         | Some Undecodable \<Rightarrow> (Ok (http_Error w (ErrorText DecodeError) 400), c)
         | Some (Decodes d) \<Rightarrow>
             (case loadErr of
                Some err \<Rightarrow> (Ok (http_Error w (ErrorText err) 500), c)
              | None \<Rightarrow>
                  (case ToggleDeployment c (namespace d) (name d) DISABLED of
                     (Panics p, c') \<Rightarrow> (Panics p, c')
                   | (Fails err, c') \<Rightarrow> (Ok (http_Error w (ErrorText err) 500), c')
                   | (Ok u, c') \<Rightarrow> (Ok (Fprintln w (Text ''Request received'')), c'))))"

definition scaleUp ::
  "error option \<Rightarrow> cluster \<Rightarrow> Request \<Rightarrow> ResponseWriter result \<times> cluster"
where
  "scaleUp loadErr c r =
     (let w0 = \<lparr>status = None, written = []\<rparr>;
          w = (if Method r \<noteq> ''POST'' then WriteHeader w0 501 else w0)
      in case Body r of
           None \<Rightarrow> (Ok (http_Error w (Text ''Please send a request body'') 400), c)
         | Some Undecodable \<Rightarrow> (Ok (http_Error w (ErrorText DecodeError) 400), c)
         | Some (Decodes d) \<Rightarrow>
             (case loadErr of
                Some err \<Rightarrow> (Ok (http_Error w (ErrorText err) 500), c)
              | None \<Rightarrow>
                  (case ToggleDeployment c (namespace d) (name d) ENABLED of
                     (Panics p, c') \<Rightarrow> (Panics p, c')
                   | (Fails err, c') \<Rightarrow> (Ok (http_Error w (ErrorText err) 500), c')
                   | (Ok u, c') \<Rightarrow>
                       (Ok (Fprintln (WriteHeader w 200) (Text ''Request received'')), c'))))"

section \<open>Example inputs\<close>

text \<open>A cluster that holds the one deployment \<open>default/web\<close>.\<close>

definition oneDeployment :: "annotations \<Rightarrow> 32 word option \<Rightarrow> verdict list \<Rightarrow> cluster" where
  "oneDeployment a r vs = \<lparr>objects = [(''default'', ''web'') \<mapsto> (a, r)], verdicts = vs\<rparr>"

text \<open>
  Two deployments under scheduler control, \<open>default/a\<close> with a schedule text to choose
  and \<open>default/b\<close> with the schedule \<open>22:00-06:00\<close>, both at 3 replicas; the indexer that
  lists them in this order, and the cluster that stores them.
\<close>

definition scheduled :: "string \<Rightarrow> string \<Rightarrow> Deployment" where
  "scheduled nm text =
     \<lparr>Namespace = ''default'', Name = nm,
      Annotations = Some [ENABLED_ANNOTATION \<mapsto> ''true'', SCHEDULE_ANNOTATION \<mapsto> text],
      Replicas = Some 3\<rparr>"

definition twoIndexer :: "string \<Rightarrow> Indexer" where
  "twoIndexer textA =
     \<lparr>ListKeys = [''default/a'', ''default/b''],
      GetByKey = (\<lambda>k. if k = ''default/a'' then Ok (Some (DeploymentObject (scheduled ''a'' textA)))
                       else if k = ''default/b''
                            then Ok (Some (DeploymentObject (scheduled ''b'' ''22:00-06:00'')))
                            else Ok None)\<rparr>"

definition twoCluster :: "string \<Rightarrow> cluster" where
  "twoCluster textA =
     \<lparr>objects = [(''default'', ''a'') \<mapsto> (Annotations (scheduled ''a'' textA), Some 3),
                 (''default'', ''b'') \<mapsto> (Annotations (scheduled ''b'' ''22:00-06:00''), Some 3)],
      verdicts = []\<rparr>"

definition postRequest :: Request where
  "postRequest = \<lparr>Method = ''POST'', Body = Some (Decodes (JsonResourceSpecifier ''default'' ''web''))\<rparr>"

section \<open>Properties of the toggle protocol\<close>

subsection \<open>The retry loop\<close>

text \<open>
  What one attempt and the loop around it do to the stored deployments: an attempt that
  does not return nil leaves them as they are, so a call of \<open>ToggleDeployment\<close> that
  returns nil ends with one attempt that returned nil on the deployments the call
  started from; and a call whose first attempt does not end in a conflict is that
  attempt.
\<close>

lemma Update_cases:
  "Update c ns d = (r, c') \<Longrightarrow>
     (r = Ok () \<and> objects c (ns, Name d) \<noteq> None
        \<and> objects c' = (objects c)((ns, Name d) \<mapsto> (Annotations d, Replicas d)))
   \<or> ((\<exists>e. r = Fails e) \<and> objects c' = objects c)"
  by (auto simp: Update_def store_def split: list.splits verdict.splits option.splits)

lemma toggleAttempt_not_Ok:
  "toggleAttempt ns nm t c = (r, c') \<Longrightarrow> r \<noteq> Ok () \<Longrightarrow> objects c' = objects c"
  unfolding toggleAttempt_def
  by (auto simp: Get_def split: option.splits result.splits if_splits dest!: Update_cases)

lemma retryLoop_Ok:
  "retryLoop n (toggleAttempt ns nm t) le c = (Ok (), c') \<Longrightarrow>
     (n = 0 \<and> le = None \<and> c' = c)
   \<or> (\<exists>c0. objects c0 = objects c \<and> toggleAttempt ns nm t c0 = (Ok (), c'))"
proof (induction n arbitrary: le c)
  case 0
  then show ?case by (auto split: option.splits)
next
  case (Suc n)
  obtain r c1 where att: "toggleAttempt ns nm t c = (r, c1)"
    by (cases "toggleAttempt ns nm t c")
  show ?case
  proof (cases r)
    case (Panics p)
    with Suc.prems att show ?thesis by simp
  next
    case (Fails e)
    with att have same: "objects c1 = objects c"
      by (auto dest: toggleAttempt_not_Ok)
    from Suc.prems att Fails have conf: "IsConflict e"
      and rest: "retryLoop n (toggleAttempt ns nm t) (Some e) c1 = (Ok (), c')"
      by (auto split: if_splits)
    from Suc.IH [OF rest] same show ?thesis by auto
  next
    case (Ok u)
    with Suc.prems att show ?thesis by auto
  qed
qed

lemma ToggleDeployment_Ok:
  assumes "ToggleDeployment c ns nm t = (Ok (), c')"
  shows "\<exists>c0. objects c0 = objects c \<and> toggleAttempt ns nm t c0 = (Ok (), c')"
proof -
  from assms have "retryLoop 5 (toggleAttempt ns nm t) None c = (Ok (), c')"
    by (auto simp: ToggleDeployment_def RetryOnConflict_def DefaultRetry_def
             split: prod.splits result.splits)
  from retryLoop_Ok [OF this] show ?thesis by simp
qed


lemma ToggleDeployment_first_attempt:
  assumes "fst (toggleAttempt ns nm t c) \<noteq> Fails StatusConflict"
  shows "ToggleDeployment c ns nm t =
           (case toggleAttempt ns nm t c of
              (Panics p, c') \<Rightarrow> (Panics p, c')
            | (Fails e, c') \<Rightarrow> (Fails (UpdateFailed e), c')
            | (Ok u, c') \<Rightarrow> (Ok (), c'))"
  using assms
  by (auto simp: ToggleDeployment_def RetryOnConflict_def DefaultRetry_def numeral_eq_Suc
                 IsConflict_def
           split: prod.splits result.splits)

lemma toggleAttempt_missing:
  "objects c (ns, nm) = None \<Longrightarrow>
   toggleAttempt ns nm t c = (Fails (FailedToGet StatusNotFound), c)"
  by (simp add: toggleAttempt_def Get_def)

lemma toggleAttempt_suspend_Ok:
  assumes "objects c (ns, nm) = Some (a, Some r)" and "r \<noteq> 0"
    and "toggleAttempt ns nm DISABLED c = (Ok (), c')"
  shows "\<exists>m. a = Some m \<and>
           objects c' = (objects c)((ns, nm) \<mapsto>
              (Some (m(REPLICAS_MEMORY_ANNOTATION \<mapsto> Itoa (sint r))), Some 0))"
  using assms unfolding toggleAttempt_def
  by (auto simp: Get_def mapSet_def split: option.splits dest!: Update_cases)

lemma toggleAttempt_resume_Ok:
  assumes "objects c (ns, nm) = Some (Some m, Some 0)"
    and "m REPLICAS_MEMORY_ANNOTATION = Some v" and "Atoi v = Ok i"
    and "toggleAttempt ns nm ENABLED c = (Ok (), c')"
  shows "objects c' = (objects c)((ns, nm) \<mapsto>
              (Some (m(REPLICAS_MEMORY_ANNOTATION := None)), Some (word_of_int i)))"
  using assms unfolding toggleAttempt_def
  by (auto simp: Get_def mapGet_def mapDelete_def ENABLED_def DISABLED_def dest!: Update_cases)

lemma Atoi_Itoa_5: "Atoi (Itoa (sint (5 :: 32 word))) = Ok 5"
  by (simp add: Itoa_def Atoi_def digitsOf.simps isDigit_def digitVal_def)

text \<open>
  A property that every attempt keeps holds when the loop ends, and the loop panics
  only when an attempt does. When every attempt is the same write, the loop returns
  nil as soon as the API server accepts it, after fewer conflicts than there are steps.
\<close>

lemma retryLoop_invariant:
  assumes step: "\<And>c r c'. P c \<Longrightarrow> fn c = (r, c') \<Longrightarrow> P c' \<and> (\<forall>p. r \<noteq> Panics p)"
    and "P c"
  shows "P (snd (retryLoop n fn le c)) \<and> (\<forall>p. fst (retryLoop n fn le c) \<noteq> Panics p)"
  using assms(2)
proof (induction n arbitrary: le c)
  case 0
  then show ?case by (simp split: option.splits)
next
  case (Suc n)
  obtain r c1 where att: "fn c = (r, c1)" by (cases "fn c")
  from step [OF Suc.prems att] have c1: "P c1" and np: "\<forall>p. r \<noteq> Panics p" by simp_all
  show ?case
  proof (cases r)
    case (Panics p)
    with np show ?thesis by simp
  next
    case (Fails e)
    with att Suc.IH [OF c1] c1 show ?thesis by simp
  next
    case (Ok u)
    with att c1 show ?thesis by simp
  qed
qed

lemma retryLoop_conflicts_then_Update:
  assumes fn: "\<And>c. objects c = objs \<Longrightarrow> fn c = Update c ns d"
    and "objects c = objs" and "verdicts c = replicate n Conflict @ vs" and "n < k"
    and "vs = [] \<or> hd vs = Accept" and "objs (ns, Name d) \<noteq> None"
  shows "retryLoop k fn le c =
           (Ok (), \<lparr>objects = objs((ns, Name d) \<mapsto> (Annotations d, Replicas d)), verdicts = tl vs\<rparr>)"
  using assms(2-4)
proof (induction n arbitrary: k le c)
  case 0
  then obtain k' where k: "k = Suc k'" by (cases k) auto
  from 0 have v: "verdicts c = vs" by simp
  have "Update c ns d =
          (Ok (), \<lparr>objects = objs((ns, Name d) \<mapsto> (Annotations d, Replicas d)), verdicts = tl vs\<rparr>)"
    using assms(5,6) 0(1) v
    by (cases vs) (auto simp: Update_def store_def split: option.splits)
  with fn [OF 0(1)] have "fn c =
          (Ok (), \<lparr>objects = objs((ns, Name d) \<mapsto> (Annotations d, Replicas d)), verdicts = tl vs\<rparr>)"
    by (simp only:)
  then show ?case unfolding k by (simp only: retryLoop.simps prod.case result.case)
next
  case (Suc n)
  then obtain k' where k: "k = Suc k'" and k': "n < k'" by (cases k) auto
  let ?c1 = "c\<lparr>verdicts := replicate n Conflict @ vs\<rparr>"
  from Suc.prems have "Update c ns d = (Fails StatusConflict, ?c1)"
    by (simp add: Update_def)
  with fn [OF Suc.prems(1)] have att: "fn c = (Fails StatusConflict, ?c1)" by simp
  have conf: "IsConflict StatusConflict" by (simp add: IsConflict_def)
  have rest: "retryLoop k' fn (Some StatusConflict) ?c1 =
          (Ok (), \<lparr>objects = objs((ns, Name d) \<mapsto> (Annotations d, Replicas d)), verdicts = tl vs\<rparr>)"
    by (rule Suc.IH) (use Suc.prems k' in simp_all)
  show ?case unfolding k
    by (simp only: retryLoop.simps att prod.case result.case conf if_True rest)
qed

lemma ToggleDeployment_snd:
  "snd (ToggleDeployment c ns nm t) = snd (retryLoop 5 (toggleAttempt ns nm t) None c)"
  by (simp add: ToggleDeployment_def RetryOnConflict_def DefaultRetry_def
           split: prod.splits result.splits)

lemma ToggleDeployment_fst:
  "fst (ToggleDeployment c ns nm t) =
     (case fst (retryLoop 5 (toggleAttempt ns nm t) None c) of
        Panics p \<Rightarrow> Panics p
      | Fails e \<Rightarrow> Fails (UpdateFailed e)
      | Ok u \<Rightarrow> Ok ())"
  by (simp add: ToggleDeployment_def RetryOnConflict_def DefaultRetry_def
           split: prod.splits result.splits)

lemma toggleAttempt_resume_no_memory:
  assumes "objects c (ns, nm) = Some (a, Some 0)"
    and "mapGet a REPLICAS_MEMORY_ANNOTATION = None"
  shows "toggleAttempt ns nm ENABLED c =
           Update c ns \<lparr>Namespace = ns, Name = nm, Annotations = a, Replicas = Some 0\<rparr>"
  using assms by (simp add: toggleAttempt_def Get_def ENABLED_def DISABLED_def)

text \<open>
  The calls that write nothing, and the calls whose write the API server accepts at
  once or after fewer than five conflicts.
\<close>

lemma suspend_already_suspended:
  assumes "objects c (ns, nm) = Some (a, Some 0)"
  shows "ToggleDeployment c ns nm DISABLED = (Ok (), c)"
proof -
  have "toggleAttempt ns nm DISABLED c = (Ok (), c)"
    using assms by (simp add: toggleAttempt_def Get_def)
  with ToggleDeployment_first_attempt [of ns nm DISABLED c] show ?thesis by simp
qed

lemma resume_already_running:
  assumes "objects c (ns, nm) = Some (Some m, Some r)" and "r \<noteq> 0"
  shows "ToggleDeployment c ns nm ENABLED = (Ok (), c)"
proof -
  have "toggleAttempt ns nm ENABLED c = (Ok (), c)"
    using assms by (simp add: toggleAttempt_def Get_def mapSet_def ENABLED_def DISABLED_def)
  with ToggleDeployment_first_attempt [of ns nm ENABLED c] show ?thesis by simp
qed

lemma suspend_twice:
  assumes "objects c (ns, nm) = Some (a, Some r)" and "r \<noteq> 0"
    and "ToggleDeployment c ns nm DISABLED = (Ok (), c1)"
  shows "\<exists>m. a = Some m
           \<and> objects c1 (ns, nm) = Some (Some (m(REPLICAS_MEMORY_ANNOTATION \<mapsto> Itoa (sint r))), Some 0)
           \<and> ToggleDeployment c1 ns nm DISABLED = (Ok (), c1)"
proof -
  from ToggleDeployment_Ok [OF assms(3)] obtain c0
    where c0: "objects c0 = objects c" "toggleAttempt ns nm DISABLED c0 = (Ok (), c1)"
    by blast
  from assms(1) c0(1) have "objects c0 (ns, nm) = Some (a, Some r)" by simp
  from toggleAttempt_suspend_Ok [OF this assms(2) c0(2)] obtain m
    where m: "a = Some m"
      and o1: "objects c1 (ns, nm) =
                 Some (Some (m(REPLICAS_MEMORY_ANNOTATION \<mapsto> Itoa (sint r))), Some 0)"
    by auto
  from suspend_already_suspended [OF o1] m o1 show ?thesis by simp
qed

lemma suspend_accepted:
  assumes obj: "objects c (ns, nm) = Some (Some m, Some r)" and "r \<noteq> 0"
    and v: "verdicts c = replicate n Conflict @ vs" and n: "n < 5" and vs: "vs = [] \<or> hd vs = Accept"
  shows "ToggleDeployment c ns nm DISABLED =
           (Ok (), \<lparr>objects = (objects c)((ns, nm) \<mapsto>
                       (Some (m(REPLICAS_MEMORY_ANNOTATION \<mapsto> Itoa (sint r))), Some 0)),
                    verdicts = tl vs\<rparr>)"
proof -
  let ?d = "\<lparr>Namespace = ns, Name = nm,
             Annotations = Some (m(REPLICAS_MEMORY_ANNOTATION \<mapsto> Itoa (sint r))),
             Replicas = Some (0 :: 32 word)\<rparr>"
  have att: "toggleAttempt ns nm DISABLED c' = Update c' ns ?d" if "objects c' = objects c" for c'
    using that obj assms(2) by (simp add: toggleAttempt_def Get_def mapSet_def)
  have "retryLoop 5 (toggleAttempt ns nm DISABLED) None c =
          (Ok (), \<lparr>objects = (objects c)((ns, Name ?d) \<mapsto> (Annotations ?d, Replicas ?d)),
                   verdicts = tl vs\<rparr>)"
    by (rule retryLoop_conflicts_then_Update [where n = n]) (use att v n vs obj in simp_all)
  then show ?thesis
    by (simp add: ToggleDeployment_def RetryOnConflict_def DefaultRetry_def)
qed

lemma resume_accepted:
  assumes obj: "objects c (ns, nm) = Some (Some m, Some 0)"
    and mem: "m REPLICAS_MEMORY_ANNOTATION = Some v" and atoi: "Atoi v = Ok i"
    and v: "verdicts c = replicate n Conflict @ vs" and n: "n < 5" and vs: "vs = [] \<or> hd vs = Accept"
  shows "ToggleDeployment c ns nm ENABLED =
           (Ok (), \<lparr>objects = (objects c)((ns, nm) \<mapsto>
                       (Some (m(REPLICAS_MEMORY_ANNOTATION := None)), Some (word_of_int i))),
                    verdicts = tl vs\<rparr>)"
proof -
  let ?d = "\<lparr>Namespace = ns, Name = nm,
             Annotations = Some (m(REPLICAS_MEMORY_ANNOTATION := None)),
             Replicas = Some (word_of_int i :: 32 word)\<rparr>"
  have att: "toggleAttempt ns nm ENABLED c' = Update c' ns ?d" if "objects c' = objects c" for c'
    using that obj mem atoi
    by (simp add: toggleAttempt_def Get_def mapGet_def mapDelete_def ENABLED_def DISABLED_def)
  have "retryLoop 5 (toggleAttempt ns nm ENABLED) None c =
          (Ok (), \<lparr>objects = (objects c)((ns, Name ?d) \<mapsto> (Annotations ?d, Replicas ?d)),
                   verdicts = tl vs\<rparr>)"
    by (rule retryLoop_conflicts_then_Update [where n = n]) (use att v n vs obj in simp_all)
  then show ?thesis
    by (simp add: ToggleDeployment_def RetryOnConflict_def DefaultRetry_def)
qed

text \<open>A deployment that runs and has no annotation map: the memorize step panics.\<close>

lemma toggle_nil_annotations_panics:
  assumes "objects c (ns, nm) = Some (None, Some r)" and "r \<noteq> 0"
  shows "ToggleDeployment c ns nm t = (Panics NilMapAssignment, c)"
proof -
  have "toggleAttempt ns nm t c = (Panics NilMapAssignment, c)"
    using assms by (simp add: toggleAttempt_def Get_def mapSet_def)
  with ToggleDeployment_first_attempt [of ns nm t c] show ?thesis by simp
qed

lemma attempt_nil_annotations_panics:
  assumes "Annotations d = None" and "Replicas d = Some r" and "r \<noteq> 0"
  shows "AttemptToggleDeployment c d t = (Panics NilMapAssignment, d, c)"
  using assms by (simp add: AttemptToggleDeployment_def mapSet_def)


subsection \<open>Round trip\<close>

text \<open>
  C4: a deployment at 5 replicas that is suspended and then resumed, both calls of
  \<open>ToggleDeployment\<close> returning nil, is at 5 replicas again and carries no
  \<open>scheduler.replicas-memory\<close> annotation. This holds whatever the API server answered
  to the writes on the way (conflicts that were retried).
\<close>

theorem toggle_round_trip:
  assumes "objects c (ns, nm) = Some (a, Some 5)"
    and "ToggleDeployment c ns nm DISABLED = (Ok (), c1)"
    and "ToggleDeployment c1 ns nm ENABLED = (Ok (), c2)"
  shows "\<exists>a2. objects c2 (ns, nm) = Some (a2, Some 5) \<and> mapGet a2 REPLICAS_MEMORY_ANNOTATION = None"
proof -
  from ToggleDeployment_Ok [OF assms(2)] obtain c0
    where c0: "objects c0 = objects c" "toggleAttempt ns nm DISABLED c0 = (Ok (), c1)"
    by blast
  from assms(1) c0(1) have "objects c0 (ns, nm) = Some (a, Some 5)" by simp
  from toggleAttempt_suspend_Ok [OF this _ c0(2)] obtain m
    where m: "a = Some m"
      and o1: "objects c1 = (objects c0)((ns, nm) \<mapsto>
                 (Some (m(REPLICAS_MEMORY_ANNOTATION \<mapsto> Itoa (sint (5 :: 32 word)))), Some 0))"
    by auto
  from ToggleDeployment_Ok [OF assms(3)] obtain c0'
    where c0': "objects c0' = objects c1" "toggleAttempt ns nm ENABLED c0' = (Ok (), c2)"
    by blast
  let ?m1 = "m(REPLICAS_MEMORY_ANNOTATION \<mapsto> Itoa (sint (5 :: 32 word)))"
  from o1 c0'(1) have "objects c0' (ns, nm) = Some (Some ?m1, Some 0)" by simp
  from toggleAttempt_resume_Ok [OF this _ Atoi_Itoa_5 c0'(2)]
  have "objects c2 (ns, nm) = Some (Some (?m1(REPLICAS_MEMORY_ANNOTATION := None)), Some (word_of_int 5))"
    by simp
  then show ?thesis by (simp add: mapGet_def)
qed

theorem toggle_round_trip_witness:
  "objects (oneDeployment (Some Map.empty) (Some 5) []) (''default'', ''web'') = Some (Some Map.empty, Some 5)
   \<and> fst (ToggleDeployment (oneDeployment (Some Map.empty) (Some 5) []) ''default'' ''web'' DISABLED) = Ok ()
   \<and> fst (ToggleDeployment
             (snd (ToggleDeployment (oneDeployment (Some Map.empty) (Some 5) []) ''default'' ''web'' DISABLED))
             ''default'' ''web'' ENABLED) = Ok ()
   \<and> (\<exists>a2. objects (snd (ToggleDeployment
                 (snd (ToggleDeployment (oneDeployment (Some Map.empty) (Some 5) []) ''default'' ''web'' DISABLED))
                 ''default'' ''web'' ENABLED)) (''default'', ''web'') = Some (a2, Some 5)
            \<and> mapGet a2 REPLICAS_MEMORY_ANNOTATION = None)"
proof -
  let ?c = "oneDeployment (Some Map.empty) (Some 5) []"
  let ?c1 = "snd (ToggleDeployment ?c ''default'' ''web'' DISABLED)"
  let ?c2 = "snd (ToggleDeployment ?c1 ''default'' ''web'' ENABLED)"
  have h1: "objects ?c (''default'', ''web'') = Some (Some Map.empty, Some 5)"
    by (simp add: oneDeployment_def)
  have s1: "ToggleDeployment ?c ''default'' ''web'' DISABLED =
              (Ok (), \<lparr>objects = (objects ?c)((''default'', ''web'') \<mapsto>
                          (Some [REPLICAS_MEMORY_ANNOTATION \<mapsto> Itoa (sint (5 :: 32 word))], Some 0)),
                       verdicts = tl []\<rparr>)"
    by (rule suspend_accepted [where n = 0]) (simp_all add: oneDeployment_def)
  have f1: "fst (ToggleDeployment ?c ''default'' ''web'' DISABLED) = Ok ()"
    by (simp add: s1)
  then have h2: "ToggleDeployment ?c ''default'' ''web'' DISABLED = (Ok (), ?c1)"
    by (simp add: prod_eq_iff)
  have o1: "objects ?c1 (''default'', ''web'') =
              Some (Some [REPLICAS_MEMORY_ANNOTATION \<mapsto> Itoa (sint (5 :: 32 word))], Some 0)"
    by (simp add: s1)
  have v1: "verdicts ?c1 = []"
    by (simp add: s1)
  have f2: "fst (ToggleDeployment ?c1 ''default'' ''web'' ENABLED) = Ok ()"
    using resume_accepted [OF o1 _ Atoi_Itoa_5, where n = 0 and vs = "[]"] v1 by simp
  then have h3: "ToggleDeployment ?c1 ''default'' ''web'' ENABLED = (Ok (), ?c2)"
    by (simp add: prod_eq_iff)
  have r: "\<exists>a2. objects ?c2 (''default'', ''web'') = Some (a2, Some 5)
                \<and> mapGet a2 REPLICAS_MEMORY_ANNOTATION = None"
    by (rule toggle_round_trip [OF h1 h2 h3])
  show ?thesis
    using h1 f1 f2 r by (intro conjI)
qed

subsection \<open>Resuming without a memorized count\<close>

text \<open>
  C9: for a deployment at 0 replicas without a \<open>scheduler.replicas-memory\<close> annotation
  (also with no annotation map at all), \<open>ToggleDeployment\<close> towards \<open>ENABLED\<close> never
  panics and leaves the stored deployment, so its replica count, as it was, whatever
  the API server answers; and it returns nil when the API server accepts the write,
  at once or after fewer than five conflicts.
\<close>

theorem resume_without_memory:
  assumes obj: "objects c (ns, nm) = Some (a, Some 0)"
    and nomem: "mapGet a REPLICAS_MEMORY_ANNOTATION = None"
  shows "(\<forall>p. fst (ToggleDeployment c ns nm ENABLED) \<noteq> Panics p)
       \<and> objects (snd (ToggleDeployment c ns nm ENABLED)) = objects c
       \<and> (\<forall>n vs. verdicts c = replicate n Conflict @ vs \<and> n < 5 \<and> (vs = [] \<or> hd vs = Accept)
             \<longrightarrow> fst (ToggleDeployment c ns nm ENABLED) = Ok ())"
proof -
  let ?d = "\<lparr>Namespace = ns, Name = nm, Annotations = a, Replicas = Some (0 :: 32 word)\<rparr>"
  let ?fn = "toggleAttempt ns nm ENABLED"
  have att: "?fn c' = Update c' ns ?d" if "objects c' = objects c" for c'
    using toggleAttempt_resume_no_memory [of c' ns nm a] that obj nomem by simp
  have same: "(objects c)((ns, nm) \<mapsto> (a, Some 0)) = objects c"
    using obj by (simp add: map_upd_triv)
  have step: "objects c'' = objects c \<and> (\<forall>p. r \<noteq> Panics p)"
    if "objects c' = objects c" and "?fn c' = (r, c'')" for c' r c''
    using that att [OF that(1)] same by (auto dest!: Update_cases)
  have inv: "objects (snd (retryLoop 5 ?fn None c)) = objects c
             \<and> (\<forall>p. fst (retryLoop 5 ?fn None c) \<noteq> Panics p)"
  proof (rule retryLoop_invariant [where P = "\<lambda>c'. objects c' = objects c"])
    fix c' r c''
    assume "objects c' = objects c" and "?fn c' = (r, c'')"
    then show "objects c'' = objects c \<and> (\<forall>p. r \<noteq> Panics p)" by (rule step)
  next
    show "objects c = objects c" by simp
  qed
  have nopanic: "\<forall>p. fst (ToggleDeployment c ns nm ENABLED) \<noteq> Panics p"
    using inv by (simp add: ToggleDeployment_fst split: result.splits)
  have unchanged: "objects (snd (ToggleDeployment c ns nm ENABLED)) = objects c"
    using inv by (simp add: ToggleDeployment_snd)
  have succ: "fst (ToggleDeployment c ns nm ENABLED) = Ok ()"
    if v: "verdicts c = replicate n Conflict @ vs" and n: "n < 5" and vs: "vs = [] \<or> hd vs = Accept"
    for n vs
  proof -
    have "retryLoop 5 ?fn None c =
            (Ok (), \<lparr>objects = (objects c)((ns, Name ?d) \<mapsto> (Annotations ?d, Replicas ?d)),
                     verdicts = tl vs\<rparr>)"
      by (rule retryLoop_conflicts_then_Update [where n = n]) (use att v n vs obj in simp_all)
    then show ?thesis by (simp add: ToggleDeployment_fst)
  qed
  show ?thesis
  proof (intro conjI allI impI)
    show "fst (ToggleDeployment c ns nm ENABLED) \<noteq> Panics p" for p
      using nopanic by simp
    show "objects (snd (ToggleDeployment c ns nm ENABLED)) = objects c"
      by (rule unchanged)
    show "fst (ToggleDeployment c ns nm ENABLED) = Ok ()"
      if "verdicts c = replicate n Conflict @ vs \<and> n < 5 \<and> (vs = [] \<or> hd vs = Accept)" for n vs
      using that succ [of n vs] by simp
  qed
qed

theorem resume_without_memory_witness:
  "objects (oneDeployment None (Some 0) [Conflict, Conflict]) (''default'', ''web'') = Some (None, Some 0)
   \<and> mapGet None REPLICAS_MEMORY_ANNOTATION = None
   \<and> fst (ToggleDeployment (oneDeployment None (Some 0) [Conflict, Conflict]) ''default'' ''web'' ENABLED) = Ok ()
   \<and> objects (snd (ToggleDeployment (oneDeployment None (Some 0) [Conflict, Conflict]) ''default'' ''web'' ENABLED))
       (''default'', ''web'') = Some (None, Some 0)"
proof -
  let ?c = "oneDeployment None (Some 0) [Conflict, Conflict]"
  have h1: "objects ?c (''default'', ''web'') = Some (None, Some 0)"
    by (simp add: oneDeployment_def)
  have h2: "mapGet None REPLICAS_MEMORY_ANNOTATION = None"
    by (simp add: mapGet_def)
  have v: "verdicts ?c = replicate 2 Conflict @ [] \<and> (2 :: nat) < 5 \<and> ([] = [] \<or> hd [] = Accept)"
    by (simp add: oneDeployment_def numeral_2_eq_2)
  from resume_without_memory [OF h1 h2] v h1 h2 show ?thesis
    by metis
qed

subsection \<open>A deployment that is gone\<close>

text \<open>
  C2 (as the code has it): when the deployment is not in the cluster, \<open>ToggleDeployment\<close>
  returns the error "Update failed: Failed to get latest version of Deployment: not
  found", for either target state, without a write and without a retry.
\<close>

theorem toggle_missing_deployment_fails:
  assumes "objects c (ns, nm) = None"
  shows "ToggleDeployment c ns nm t = (Fails (UpdateFailed (FailedToGet StatusNotFound)), c)"
  using ToggleDeployment_first_attempt [of ns nm t c] toggleAttempt_missing [OF assms, of t]
  by simp

theorem toggle_missing_deployment_fails_witness:
  "objects \<lparr>objects = Map.empty, verdicts = []\<rparr> (''default'', ''web'') = None
   \<and> ToggleDeployment \<lparr>objects = Map.empty, verdicts = []\<rparr> ''default'' ''web'' ENABLED =
       (Fails (UpdateFailed (FailedToGet StatusNotFound)), \<lparr>objects = Map.empty, verdicts = []\<rparr>)"
proof -
  have h: "objects \<lparr>objects = Map.empty, verdicts = []\<rparr> (''default'', ''web'') = None"
    by simp
  show ?thesis
    using h toggle_missing_deployment_fails [OF h, of ENABLED] by (intro conjI)
qed

theorem toggle_missing_deployment_counterexample:
  "fst (ToggleDeployment \<lparr>objects = Map.empty, verdicts = []\<rparr> ''default'' ''web'' DISABLED) \<noteq> Ok ()
   \<and> fst (ToggleDeployment \<lparr>objects = Map.empty, verdicts = []\<rparr> ''default'' ''web'' ENABLED) \<noteq> Ok ()"
proof -
  have "toggleAttempt ''default'' ''web'' t \<lparr>objects = Map.empty, verdicts = []\<rparr> =
          (Fails (FailedToGet StatusNotFound), \<lparr>objects = Map.empty, verdicts = []\<rparr>)" for t
    by (rule toggleAttempt_missing) simp
  then have "fst (ToggleDeployment \<lparr>objects = Map.empty, verdicts = []\<rparr> ''default'' ''web'' t) =
          Fails (UpdateFailed (FailedToGet StatusNotFound))" for t
    using ToggleDeployment_first_attempt [of "''default''" "''web''" t "\<lparr>objects = Map.empty, verdicts = []\<rparr>"]
    by simp
  then show ?thesis by simp
qed

subsection \<open>Idempotence\<close>

text \<open>
  Suspending a deployment that runs with an annotation map, and suspending it again:
  the first call, when it returns nil, has written 0 replicas and the memorized count;
  the second returns nil and leaves the cluster as it is. Resuming a deployment that
  runs with an annotation map returns nil and leaves the cluster as it is.
\<close>

lemma toggle_idempotent_with_annotations:
  assumes "objects c (ns, nm) = Some (Some m, Some r)" and "r \<noteq> 0"
  shows "ToggleDeployment c ns nm ENABLED = (Ok (), c)"
    and "ToggleDeployment c ns nm DISABLED = (Ok (), c1) \<Longrightarrow>
           objects c1 (ns, nm) = Some (Some (m(REPLICAS_MEMORY_ANNOTATION \<mapsto> Itoa (sint r))), Some 0)
           \<and> ToggleDeployment c1 ns nm DISABLED = (Ok (), c1)"
  using resume_already_running [OF assms] suspend_twice [OF assms] by auto

text \<open>
  C5 (where the code departs from it): a deployment that runs at 3 replicas and has no
  annotation map. Resuming it is not the no-op that returns nil: the call panics on
  the assignment to the nil map, and so does the first of two suspending calls.
\<close>

theorem toggle_running_nil_annotations:
  "fst (ToggleDeployment (oneDeployment None (Some 3) []) ''default'' ''web'' ENABLED)
     = Panics NilMapAssignment
   \<and> fst (ToggleDeployment (oneDeployment None (Some 3) []) ''default'' ''web'' DISABLED)
     = Panics NilMapAssignment"
proof -
  have "ToggleDeployment (oneDeployment None (Some 3) []) ''default'' ''web'' t =
          (Panics NilMapAssignment, oneDeployment None (Some 3) [])" for t
    by (rule toggle_nil_annotations_panics [where r = 3]) (simp_all add: oneDeployment_def)
  then show ?thesis by simp
qed

subsection \<open>Memorizing the replicas\<close>

text \<open>
  C10 (where the code departs from it): for a deployment fetched with 3 replicas and no
  annotation map, the memorize step of both variants assigns to an entry of the nil
  map, which panics; nothing is written to the cluster.
\<close>

theorem memorize_nil_annotations_panics:
  "ToggleDeployment (oneDeployment None (Some 3) []) ''default'' ''web'' DISABLED =
     (Panics NilMapAssignment, oneDeployment None (Some 3) [])
   \<and> AttemptToggleDeployment (oneDeployment None (Some 3) [])
        \<lparr>Namespace = ''default'', Name = ''web'', Annotations = None, Replicas = Some 3\<rparr> DISABLED =
     (Panics NilMapAssignment,
      \<lparr>Namespace = ''default'', Name = ''web'', Annotations = None, Replicas = Some 3\<rparr>,
      oneDeployment None (Some 3) [])"
proof (rule conjI)
  show "ToggleDeployment (oneDeployment None (Some 3) []) ''default'' ''web'' DISABLED =
          (Panics NilMapAssignment, oneDeployment None (Some 3) [])"
    by (rule toggle_nil_annotations_panics [where r = 3]) (simp_all add: oneDeployment_def)
  show "AttemptToggleDeployment (oneDeployment None (Some 3) [])
          \<lparr>Namespace = ''default'', Name = ''web'', Annotations = None, Replicas = Some 3\<rparr> DISABLED =
        (Panics NilMapAssignment,
         \<lparr>Namespace = ''default'', Name = ''web'', Annotations = None, Replicas = Some 3\<rparr>,
         oneDeployment None (Some 3) [])"
    by (rule attempt_nil_annotations_panics [where r = 3]) simp_all
qed

text \<open>With an annotation map the memorize step completes: neither variant panics.\<close>

lemma Atoi_no_panic: "Atoi s \<noteq> Panics p"
  by (simp add: Atoi_def Let_def split: list.splits)

lemma Update_no_panic: "fst (Update c ns d) \<noteq> Panics p"
  by (auto simp: Update_def store_def split: list.splits verdict.splits option.splits)

lemma toggleAttempt_no_panic_with_annotations:
  assumes "objects c (ns, nm) = Some (Some m, Some r)"
  shows "fst (toggleAttempt ns nm t c) \<noteq> Panics p"
  using assms unfolding toggleAttempt_def
  by (auto simp: Get_def mapSet_def Atoi_no_panic Update_no_panic
           split: result.splits option.splits)

lemma AttemptToggleDeployment_no_panic_with_annotations:
  assumes "Annotations d = Some m" and "Replicas d = Some r"
  shows "fst (AttemptToggleDeployment c d t) \<noteq> Panics p"
  using assms unfolding AttemptToggleDeployment_def
  by (auto simp: mapSet_def Let_def Atoi_no_panic Update_no_panic split_beta
           split: result.splits option.splits)

section \<open>Properties of the schedule\<close>

subsection \<open>Range membership\<close>

lemma InRangeNow_instant:
  "InRangeNow t now =
     (if instant (End t) < instant (Start t)
      then instant (Start t) < instant now \<or> instant now < instant (End t)
      else instant (Start t) < instant now \<and> instant now < instant (End t))"
  by (simp add: InRangeNow_def Before_def After_def)

text \<open>
  C7: both comparisons are strict. For the range (09:00, 17:00) the test is false at
  09:00, true at 09:01, true at 16:59 and false at 17:00; and for a range whose start
  and end are equal it is false at every time.
\<close>

theorem InRangeNow_strict_boundaries:
  "\<not> InRangeNow \<lparr>Start = \<lparr>Hour = 9, Minute = 0\<rparr>, End = \<lparr>Hour = 17, Minute = 0\<rparr>\<rparr> \<lparr>Hour = 9, Minute = 0\<rparr>
   \<and> InRangeNow \<lparr>Start = \<lparr>Hour = 9, Minute = 0\<rparr>, End = \<lparr>Hour = 17, Minute = 0\<rparr>\<rparr> \<lparr>Hour = 9, Minute = 1\<rparr>
   \<and> InRangeNow \<lparr>Start = \<lparr>Hour = 9, Minute = 0\<rparr>, End = \<lparr>Hour = 17, Minute = 0\<rparr>\<rparr> \<lparr>Hour = 16, Minute = 59\<rparr>
   \<and> \<not> InRangeNow \<lparr>Start = \<lparr>Hour = 9, Minute = 0\<rparr>, End = \<lparr>Hour = 17, Minute = 0\<rparr>\<rparr> \<lparr>Hour = 17, Minute = 0\<rparr>
   \<and> (Start t = End t \<longrightarrow> \<not> InRangeNow t now)"
  by (simp add: InRangeNow_instant instant_def)

theorem InRangeNow_strict_boundaries_witness:
  "Start \<lparr>Start = \<lparr>Hour = 9, Minute = 0\<rparr>, End = \<lparr>Hour = 9, Minute = 0\<rparr>\<rparr>
     = End \<lparr>Start = \<lparr>Hour = 9, Minute = 0\<rparr>, End = \<lparr>Hour = 9, Minute = 0\<rparr>\<rparr>
   \<and> \<not> InRangeNow \<lparr>Start = \<lparr>Hour = 9, Minute = 0\<rparr>, End = \<lparr>Hour = 9, Minute = 0\<rparr>\<rparr> \<lparr>Hour = 9, Minute = 0\<rparr>"
proof -
  let ?t = "\<lparr>Start = \<lparr>Hour = 9, Minute = 0\<rparr>, End = \<lparr>Hour = 9, Minute = 0\<rparr>\<rparr>"
  have h: "Start ?t = End ?t" by simp
  have "Start ?t = End ?t \<longrightarrow> \<not> InRangeNow ?t \<lparr>Hour = 9, Minute = 0\<rparr>"
    using InRangeNow_strict_boundaries [of ?t "\<lparr>Hour = 9, Minute = 0\<rparr>"] by (elim conjE)
  with h show ?thesis by (intro conjI) (assumption, erule (1) mp)
qed

text \<open>
  C8: a range whose end is before its start wraps past midnight: the test holds iff
  now is after the start or before the end. For (22:00, 06:00) it is true at 23:00
  and at 03:00 and false at 12:00.
\<close>

theorem InRangeNow_wraps_midnight:
  "(Before (End t) (Start t) \<longrightarrow>
      InRangeNow t now = (instant now > instant (Start t) \<or> instant now < instant (End t)))
   \<and> InRangeNow \<lparr>Start = \<lparr>Hour = 22, Minute = 0\<rparr>, End = \<lparr>Hour = 6, Minute = 0\<rparr>\<rparr> \<lparr>Hour = 23, Minute = 0\<rparr>
   \<and> InRangeNow \<lparr>Start = \<lparr>Hour = 22, Minute = 0\<rparr>, End = \<lparr>Hour = 6, Minute = 0\<rparr>\<rparr> \<lparr>Hour = 3, Minute = 0\<rparr>
   \<and> \<not> InRangeNow \<lparr>Start = \<lparr>Hour = 22, Minute = 0\<rparr>, End = \<lparr>Hour = 6, Minute = 0\<rparr>\<rparr> \<lparr>Hour = 12, Minute = 0\<rparr>"
  by (simp add: InRangeNow_instant Before_def instant_def)

theorem InRangeNow_wraps_midnight_witness:
  "Before (End \<lparr>Start = \<lparr>Hour = 22, Minute = 0\<rparr>, End = \<lparr>Hour = 6, Minute = 0\<rparr>\<rparr>)
          (Start \<lparr>Start = \<lparr>Hour = 22, Minute = 0\<rparr>, End = \<lparr>Hour = 6, Minute = 0\<rparr>\<rparr>)
   \<and> InRangeNow \<lparr>Start = \<lparr>Hour = 22, Minute = 0\<rparr>, End = \<lparr>Hour = 6, Minute = 0\<rparr>\<rparr> \<lparr>Hour = 5, Minute = 59\<rparr>
       = (instant \<lparr>Hour = 5, Minute = 59\<rparr> > instant (Start \<lparr>Start = \<lparr>Hour = 22, Minute = 0\<rparr>, End = \<lparr>Hour = 6, Minute = 0\<rparr>\<rparr>)
          \<or> instant \<lparr>Hour = 5, Minute = 59\<rparr> < instant (End \<lparr>Start = \<lparr>Hour = 22, Minute = 0\<rparr>, End = \<lparr>Hour = 6, Minute = 0\<rparr>\<rparr>))"
proof -
  let ?t = "\<lparr>Start = \<lparr>Hour = 22, Minute = 0\<rparr>, End = \<lparr>Hour = 6, Minute = 0\<rparr>\<rparr>"
  let ?now = "\<lparr>Hour = 5, Minute = 59\<rparr>"
  have h: "Before (End ?t) (Start ?t)"
    by (simp add: Before_def instant_def)
  have "Before (End ?t) (Start ?t) \<longrightarrow>
          InRangeNow ?t ?now = (instant ?now > instant (Start ?t) \<or> instant ?now < instant (End ?t))"
    using InRangeNow_wraps_midnight [of ?t ?now] by (elim conjE)
  with h show ?thesis by (intro conjI) (assumption, erule (1) mp)
qed

text \<open>The ranges of the two laws are what the parser makes of their annotation texts.\<close>

lemma parse_examples:
  "parseScheduleAnnotation (Some [SCHEDULE_ANNOTATION \<mapsto> ''09:00-17:00'']) =
     Ok \<lparr>Start = \<lparr>Hour = 9, Minute = 0\<rparr>, End = \<lparr>Hour = 17, Minute = 0\<rparr>\<rparr>"
  "parseScheduleAnnotation (Some [SCHEDULE_ANNOTATION \<mapsto> ''22:00-06:00'']) =
     Ok \<lparr>Start = \<lparr>Hour = 22, Minute = 0\<rparr>, End = \<lparr>Hour = 6, Minute = 0\<rparr>\<rparr>"
  "parseScheduleAnnotation (Some [SCHEDULE_ANNOTATION \<mapsto> '' 9:00 - 9:00 '']) =
     Ok \<lparr>Start = \<lparr>Hour = 9, Minute = 0\<rparr>, End = \<lparr>Hour = 9, Minute = 0\<rparr>\<rparr>"
  by (simp_all add: parseScheduleAnnotation_def mapGet_def index_def Trim_def time_Parse_def
        getnum_def isDigit_def digitVal_def)

subsection \<open>The parser\<close>

lemma Split_nonempty: "Split s sep \<noteq> []"
  by (induction s) (auto split: list.splits)

lemma Split_no_sep: "sep \<notin> set s \<Longrightarrow> Split s sep = [s]"
  by (induction s) auto

lemma Split_length: "length (Split s sep) = Suc (length (filter (\<lambda>c. c = sep) s))"
  by (induction s) (auto split: list.splits)

lemma time_Parse_no_panic: "time_Parse v \<noteq> Panics p"
  by (simp add: time_Parse_def split: option.splits prod.splits list.splits)

text \<open>An absent annotation, also on a nil map, is the error "could not find ...".\<close>

lemma parse_missing_annotation:
  "mapGet a SCHEDULE_ANNOTATION = None \<Longrightarrow>
   parseScheduleAnnotation a = Fails (CouldNotFindAnnotation SCHEDULE_ANNOTATION)"
  by (simp add: parseScheduleAnnotation_def)

text \<open>A first token that is not a time is the parse error of that token.\<close>

lemma parse_first_token_unparsable:
  assumes "mapGet a SCHEDULE_ANNOTATION = Some sched"
    and "time_Parse (Trim (hd (Split sched CHR ''-'')) '' '') = Fails e"
  shows "parseScheduleAnnotation a = Fails e"
  using assms Split_nonempty [of sched "CHR ''-''"]
  by (cases "Split sched CHR ''-''") (simp_all add: parseScheduleAnnotation_def index_def)

text \<open>
  The parser panics exactly when the text has no \<open>-\<close> and is, trimmed, a time: then
  \<open>tokens[1]\<close> is out of range.
\<close>

lemma parse_panics_iff:
  "parseScheduleAnnotation a = Panics p \<longleftrightarrow>
     p = IndexOutOfRange \<and>
     (\<exists>sched t. mapGet a SCHEDULE_ANNOTATION = Some sched \<and> CHR ''-'' \<notin> set sched
               \<and> time_Parse (Trim sched '' '') = Ok t)"
proof (cases "mapGet a SCHEDULE_ANNOTATION")
  case None
  then show ?thesis by (simp add: parseScheduleAnnotation_def)
next
  case (Some sched)
  show ?thesis
  proof (cases "CHR ''-'' \<in> set sched")
    case False
    then have "Split sched CHR ''-'' = [sched]" by (rule Split_no_sep)
    with Some False show ?thesis
      by (cases "time_Parse (Trim sched '' '')")
         (auto simp: parseScheduleAnnotation_def index_def time_Parse_no_panic)
  next
    case True
    then have "length (filter (\<lambda>c. c = CHR ''-'') sched) \<noteq> 0"
      by (simp add: filter_empty_conv)
    then have "1 < length (Split sched CHR ''-'')"
      by (simp add: Split_length)
    with Some True show ?thesis
      by (auto simp: parseScheduleAnnotation_def index_def time_Parse_no_panic Let_def
               split: result.splits)
  qed
qed

text \<open>
  C1 (where the code departs from it): the annotation text \<open>09:00\<close> has one token. The
  parser does not return an error: it panics on \<open>tokens[1]\<close>. And a text of three
  tokens is not refused: the third token is never looked at.
\<close>

theorem parse_single_token_panics:
  "parseScheduleAnnotation (Some [SCHEDULE_ANNOTATION \<mapsto> ''09:00'']) = Panics IndexOutOfRange
   \<and> parseScheduleAnnotation (Some [SCHEDULE_ANNOTATION \<mapsto> ''09:00-17:00-xx'']) =
       Ok \<lparr>Start = \<lparr>Hour = 9, Minute = 0\<rparr>, End = \<lparr>Hour = 17, Minute = 0\<rparr>\<rparr>"
  by (simp add: parseScheduleAnnotation_def mapGet_def index_def Trim_def time_Parse_def
        getnum_def isDigit_def digitVal_def)

section \<open>Properties of the reconciliation tick\<close>

text \<open>
  An error that the parser or the toggle returns for one deployment is logged and the
  loop goes on with the keys that remain.
\<close>

lemma tick_contains_parse_error:
  assumes "GetByKey ix k = Ok (Some (DeploymentObject obj))"
    and "mapGet (Annotations obj) ENABLED_ANNOTATION = Some v" and "ToLower v = ''true''"
    and "parseScheduleAnnotation (Annotations obj) = Fails e"
  shows "loopOver ix now (k # ks) c lg =
           loopOver ix now ks c (lg @ [CheckingDeployment k, LoggedError e])"
  using assms by (simp add: loopBody_def)

lemma tick_contains_toggle_error:
  assumes "GetByKey ix k = Ok (Some (DeploymentObject obj))"
    and "mapGet (Annotations obj) ENABLED_ANNOTATION = Some v" and "ToLower v = ''true''"
    and "parseScheduleAnnotation (Annotations obj) = Ok schedule"
    and "ToggleDeployment c (Namespace obj) (Name obj)
           (if InRangeNow schedule now then DISABLED else ENABLED) = (Fails e, c')"
  shows "loopOver ix now (k # ks) c lg =
           loopOver ix now ks c' (lg @ [CheckingDeployment k, LoggedError e])"
  using assms by (simp add: loopBody_def split: if_splits)

text \<open>A panic of the parser for one deployment ends the tick: the keys after it are not looked at.\<close>

lemma tick_aborted_by_parse_panic:
  assumes "GetByKey ix k = Ok (Some (DeploymentObject obj))"
    and "mapGet (Annotations obj) ENABLED_ANNOTATION = Some v" and "ToLower v = ''true''"
    and "parseScheduleAnnotation (Annotations obj) = Panics p"
  shows "loopOver ix now (k # ks) c lg = (Some p, c, lg @ [CheckingDeployment k])"
  using assms by (simp add: loopBody_def)

lemma scheduled_parse_b:
  "parseScheduleAnnotation (Annotations (scheduled nm ''22:00-06:00'')) =
     Ok \<lparr>Start = \<lparr>Hour = 22, Minute = 0\<rparr>, End = \<lparr>Hour = 6, Minute = 0\<rparr>\<rparr>"
  by (simp add: scheduled_def parseScheduleAnnotation_def mapGet_def index_def Trim_def
        time_Parse_def getnum_def isDigit_def digitVal_def SCHEDULE_ANNOTATION_def
        ENABLED_ANNOTATION_def)

lemma scheduled_enabled:
  "mapGet (Annotations (scheduled nm sched)) ENABLED_ANNOTATION = Some ''true''"
  by (simp add: scheduled_def mapGet_def SCHEDULE_ANNOTATION_def ENABLED_ANNOTATION_def)

lemma ToLower_true: "ToLower ''true'' = ''true''"
  by (simp add: ToLower_def toLowerByte_def)

text \<open>
  With the unparsable schedule \<open>9am-5pm\<close> on \<open>default/a\<close>, the tick at 23:30 logs the
  parse error and suspends \<open>default/b\<close>.
\<close>

lemma tick_malformed_then_valid:
  "\<exists>c'. loopIteration (twoIndexer ''9am-5pm'') \<lparr>Hour = 23, Minute = 30\<rparr> (twoCluster ''9am-5pm'') =
          (None, c',
           [CheckingDeployment ''default/a'', LoggedError (TimeParseError ''9am''),
            CheckingDeployment ''default/b''])
        \<and> (\<exists>m. objects c' (''default'', ''b'') = Some (Some m, Some 0)
                \<and> m REPLICAS_MEMORY_ANNOTATION = Some ''3'')"
proof -
  let ?ix = "twoIndexer ''9am-5pm''" and ?c = "twoCluster ''9am-5pm''"
  let ?now = "\<lparr>Hour = 23, Minute = 30\<rparr>"
  let ?mb = "[ENABLED_ANNOTATION \<mapsto> ''true'', SCHEDULE_ANNOTATION \<mapsto> ''22:00-06:00'']"
  let ?c' = "\<lparr>objects = (objects ?c)((''default'', ''b'') \<mapsto>
                (Some (?mb(REPLICAS_MEMORY_ANNOTATION \<mapsto> Itoa (sint (3 :: 32 word)))), Some 0)),
              verdicts = tl []\<rparr>"
  have pa: "parseScheduleAnnotation (Annotations (scheduled ''a'' ''9am-5pm'')) =
              Fails (TimeParseError ''9am'')"
    by (simp add: scheduled_def parseScheduleAnnotation_def mapGet_def index_def Trim_def
          time_Parse_def getnum_def isDigit_def digitVal_def SCHEDULE_ANNOTATION_def
          ENABLED_ANNOTATION_def)
  have a: "loopOver ?ix ?now [''default/a'', ''default/b''] ?c [] =
             loopOver ?ix ?now [''default/b''] ?c
               ([] @ [CheckingDeployment ''default/a'', LoggedError (TimeParseError ''9am'')])"
    by (rule tick_contains_parse_error [OF _ scheduled_enabled ToLower_true pa])
       (simp add: twoIndexer_def)
  have tb: "ToggleDeployment ?c ''default'' ''b'' DISABLED = (Ok (), ?c')"
    by (rule suspend_accepted [where n = 0])
       (simp_all add: twoCluster_def scheduled_def)
  have inr: "InRangeNow \<lparr>Start = \<lparr>Hour = 22, Minute = 0\<rparr>, End = \<lparr>Hour = 6, Minute = 0\<rparr>\<rparr> ?now"
    by (simp add: InRangeNow_def Before_def After_def instant_def)
  have b: "loopBody ?ix ?now ''default/b'' ?c lg = (None, ?c', lg @ [CheckingDeployment ''default/b''])" for lg
    using tb inr scheduled_parse_b [of "''b''"] scheduled_enabled [of "''b''" "''22:00-06:00''"] ToLower_true
    by (simp add: loopBody_def twoIndexer_def) (simp add: scheduled_def)
  have "loopIteration ?ix ?now ?c =
          (None, ?c', [CheckingDeployment ''default/a'', LoggedError (TimeParseError ''9am''),
                       CheckingDeployment ''default/b''])"
    unfolding loopIteration_def
    using a b by (simp add: twoIndexer_def)
  moreover have "objects ?c' (''default'', ''b'') =
                   Some (Some (?mb(REPLICAS_MEMORY_ANNOTATION \<mapsto> ''3'')), Some 0)"
    by (simp add: Itoa_def digitsOf.simps)
  ultimately show ?thesis by auto
qed

text \<open>
  C3 (where the code departs from it): \<open>default/a\<close> carries the malformed schedule
  \<open>09:00\<close> and \<open>default/b\<close> a valid one whose window holds 23:30. The tick panics in the
  parser at \<open>default/a\<close>: \<open>default/b\<close> is never evaluated and stays at 3 replicas.
\<close>

theorem tick_malformed_schedule_aborts:
  "loopIteration (twoIndexer ''09:00'') \<lparr>Hour = 23, Minute = 30\<rparr> (twoCluster ''09:00'') =
     (Some IndexOutOfRange, twoCluster ''09:00'', [CheckingDeployment ''default/a''])
   \<and> objects (twoCluster ''09:00'') (''default'', ''b'') =
       Some (Annotations (scheduled ''b'' ''22:00-06:00''), Some 3)"
proof (rule conjI)
  have pa: "parseScheduleAnnotation (Annotations (scheduled ''a'' ''09:00'')) = Panics IndexOutOfRange"
    by (simp add: scheduled_def parseScheduleAnnotation_def mapGet_def index_def Trim_def
          time_Parse_def getnum_def isDigit_def digitVal_def SCHEDULE_ANNOTATION_def
          ENABLED_ANNOTATION_def)
  have "loopOver (twoIndexer ''09:00'') \<lparr>Hour = 23, Minute = 30\<rparr> [''default/a'', ''default/b'']
          (twoCluster ''09:00'') [] =
        (Some IndexOutOfRange, twoCluster ''09:00'', [] @ [CheckingDeployment ''default/a''])"
    by (rule tick_aborted_by_parse_panic [OF _ scheduled_enabled ToLower_true pa])
       (simp add: twoIndexer_def)
  then show "loopIteration (twoIndexer ''09:00'') \<lparr>Hour = 23, Minute = 30\<rparr> (twoCluster ''09:00'') =
               (Some IndexOutOfRange, twoCluster ''09:00'', [CheckingDeployment ''default/a''])"
    by (simp add: loopIteration_def twoIndexer_def)
  show "objects (twoCluster ''09:00'') (''default'', ''b'') =
          Some (Annotations (scheduled ''b'' ''22:00-06:00''), Some 3)"
    by (simp add: twoCluster_def)
qed

section \<open>Properties of the manual control surface\<close>

text \<open>
  C6 (as the code has it): on a POST request whose body decodes, with the client
  configuration loaded, \<open>/scaleDown\<close> and \<open>/scaleUp\<close> each make one call of
  \<open>ToggleDeployment\<close>, the variant that fetches the deployment and retries on a write
  conflict, towards \<open>DISABLED\<close> and \<open>ENABLED\<close>, and answer 200 when it returns nil and
  500 with the error when it fails.
\<close>

theorem manual_surface_calls_ToggleDeployment:
  assumes "Method r = ''POST''" and "Body r = Some (Decodes d)"
  shows "scaleDown None c r =
           (case ToggleDeployment c (namespace d) (name d) DISABLED of
              (Panics p, c') \<Rightarrow> (Panics p, c')
            | (Fails err, c') \<Rightarrow> (Ok \<lparr>status = Some 500, written = [ErrorText err]\<rparr>, c')
            | (Ok u, c') \<Rightarrow> (Ok \<lparr>status = Some 200, written = [Text ''Request received'']\<rparr>, c'))
       \<and> scaleUp None c r =
           (case ToggleDeployment c (namespace d) (name d) ENABLED of
              (Panics p, c') \<Rightarrow> (Panics p, c')
            | (Fails err, c') \<Rightarrow> (Ok \<lparr>status = Some 500, written = [ErrorText err]\<rparr>, c')
            | (Ok u, c') \<Rightarrow> (Ok \<lparr>status = Some 200, written = [Text ''Request received'']\<rparr>, c'))"
  using assms
  by (simp add: scaleDown_def scaleUp_def http_Error_def Fprintln_def WriteHeader_def
           split: prod.splits result.splits)

lemma scaleDown_after_conflict:
  "ToggleDeployment (oneDeployment (Some Map.empty) (Some 3) [Conflict]) ''default'' ''web'' DISABLED =
     (Ok (), \<lparr>objects = (objects (oneDeployment (Some Map.empty) (Some 3) [Conflict]))
                 ((''default'', ''web'') \<mapsto>
                    (Some [REPLICAS_MEMORY_ANNOTATION \<mapsto> Itoa (sint (3 :: 32 word))], Some 0)),
              verdicts = tl []\<rparr>)"
  by (rule suspend_accepted [where n = 1]) (simp_all add: oneDeployment_def)

theorem manual_surface_calls_ToggleDeployment_witness:
  "Method postRequest = ''POST''
   \<and> Body postRequest = Some (Decodes (JsonResourceSpecifier ''default'' ''web''))
   \<and> fst (scaleDown None (oneDeployment (Some Map.empty) (Some 3) [Conflict]) postRequest) =
       Ok \<lparr>status = Some 200, written = [Text ''Request received'']\<rparr>"
proof -
  have h1: "Method postRequest = ''POST''"
    by (simp add: postRequest_def)
  have h2: "Body postRequest = Some (Decodes (JsonResourceSpecifier ''default'' ''web''))"
    by (simp add: postRequest_def)
  have "fst (scaleDown None (oneDeployment (Some Map.empty) (Some 3) [Conflict]) postRequest) =
          Ok \<lparr>status = Some 200, written = [Text ''Request received'']\<rparr>"
    using manual_surface_calls_ToggleDeployment [OF h1 h2,
            of "oneDeployment (Some Map.empty) (Some 3) [Conflict]"]
    by (simp add: scaleDown_after_conflict)
  with h1 h2 show ?thesis by (intro conjI)
qed

text \<open>
  The call is not the non-retrying one: when the API server answers the first write
  with a conflict, \<open>/scaleDown\<close> answers 200 and the deployment is at 0 replicas, where
  \<open>AttemptToggleDeployment\<close> on the same deployment returns the conflict.
\<close>

theorem manual_surface_retries_counterexample:
  "fst (scaleDown None (oneDeployment (Some Map.empty) (Some 3) [Conflict]) postRequest) =
     Ok \<lparr>status = Some 200, written = [Text ''Request received'']\<rparr>
   \<and> objects (snd (scaleDown None (oneDeployment (Some Map.empty) (Some 3) [Conflict]) postRequest))
       (''default'', ''web'') = Some (Some [REPLICAS_MEMORY_ANNOTATION \<mapsto> ''3''], Some 0)
   \<and> fst (AttemptToggleDeployment (oneDeployment (Some Map.empty) (Some 3) [Conflict])
            \<lparr>Namespace = ''default'', Name = ''web'', Annotations = Some Map.empty, Replicas = Some 3\<rparr>
            DISABLED) = Fails StatusConflict"
proof (intro conjI)
  have sd: "scaleDown None (oneDeployment (Some Map.empty) (Some 3) [Conflict]) postRequest =
              (Ok \<lparr>status = Some 200, written = [Text ''Request received'']\<rparr>,
               \<lparr>objects = (objects (oneDeployment (Some Map.empty) (Some 3) [Conflict]))
                   ((''default'', ''web'') \<mapsto>
                      (Some [REPLICAS_MEMORY_ANNOTATION \<mapsto> Itoa (sint (3 :: 32 word))], Some 0)),
                verdicts = tl []\<rparr>)"
    by (simp add: scaleDown_def postRequest_def scaleDown_after_conflict
          http_Error_def Fprintln_def WriteHeader_def)
  show "fst (scaleDown None (oneDeployment (Some Map.empty) (Some 3) [Conflict]) postRequest) =
          Ok \<lparr>status = Some 200, written = [Text ''Request received'']\<rparr>"
    by (simp add: sd)
  show "objects (snd (scaleDown None (oneDeployment (Some Map.empty) (Some 3) [Conflict]) postRequest))
          (''default'', ''web'') = Some (Some [REPLICAS_MEMORY_ANNOTATION \<mapsto> ''3''], Some 0)"
    by (simp add: sd Itoa_def digitsOf.simps)
  show "fst (AttemptToggleDeployment (oneDeployment (Some Map.empty) (Some 3) [Conflict])
            \<lparr>Namespace = ''default'', Name = ''web'', Annotations = Some Map.empty, Replicas = Some 3\<rparr>
            DISABLED) = Fails StatusConflict"
    by (simp add: AttemptToggleDeployment_def mapSet_def Update_def oneDeployment_def)
qed

text \<open>
  For another method than POST the handlers write the status 501 first and go on all
  the same: the toggle is made, and the status stays 501 whatever its result.
\<close>

lemma scaleDown_other_method:
  assumes "Method r \<noteq> ''POST''" and "Body r = Some (Decodes d)"
  shows "snd (scaleDown None c r) = snd (ToggleDeployment c (namespace d) (name d) DISABLED)"
    and "fst (scaleDown None c r) = Ok w \<Longrightarrow> status w = Some 501"
  using assms
  by (auto simp: scaleDown_def http_Error_def Fprintln_def WriteHeader_def Let_def
           split: prod.splits result.splits)

section \<open>Further properties: decimal texts and the general round trip\<close>

text \<open>The digits that \<open>Itoa\<close> writes are the ones that \<open>Atoi\<close> reads.\<close>

lemma digit_table:
  assumes "d < 10"
  shows "isDigit (''0123456789'' ! d) \<and> digitVal (''0123456789'' ! d) = d
         \<and> ''0123456789'' ! d \<noteq> CHR ''-'' \<and> ''0123456789'' ! d \<noteq> CHR ''+''"
proof -
  from assms have "d \<in> {0, 1, 2, 3, 4, 5, 6, 7, 8, 9}" by auto
  then show ?thesis
    by (auto simp: isDigit_def digitVal_def)
qed

lemma digitsOf_digits: "list_all isDigit (digitsOf n)"
proof (induction n rule: digitsOf.induct)
  case (1 n)
  show ?case
  proof (cases "n < 10")
    case True
    then show ?thesis by (subst digitsOf.simps) (simp add: digit_table)
  next
    case False
    with 1 show ?thesis by (subst digitsOf.simps) (simp add: digit_table)
  qed
qed

lemma digitsOf_value: "foldl (\<lambda>n ch. n * 10 + digitVal ch) 0 (digitsOf n) = n"
proof (induction n rule: digitsOf.induct)
  case (1 n)
  show ?case
  proof (cases "n < 10")
    case True
    then show ?thesis by (subst digitsOf.simps) (simp add: digit_table)
  next
    case False
    with 1 show ?thesis by (subst digitsOf.simps) (simp add: digit_table)
  qed
qed

lemma digitsOf_Cons: "\<exists>c r. digitsOf n = c # r \<and> c \<noteq> CHR ''-'' \<and> c \<noteq> CHR ''+''"
proof (induction n rule: digitsOf.induct)
  case (1 n)
  show ?case
  proof (cases "n < 10")
    case True
    then show ?thesis by (subst digitsOf.simps) (simp add: digit_table)
  next
    case False
    with 1 show ?thesis by (subst digitsOf.simps) auto
  qed
qed

text \<open>\<open>Atoi\<close> reads back what \<open>Itoa\<close> wrote, for every value of a 64-bit \<open>int\<close>.\<close>

lemma Atoi_Itoa:
  assumes "- (2 ^ 63) \<le> i" and "i < 2 ^ 63"
  shows "Atoi (Itoa i) = Ok i"
proof (cases "i < 0")
  case True
  obtain c r where cr: "digitsOf (nat (- i)) = c # r"
    using digitsOf_Cons [of "nat (- i)"] by blast
  have v: "foldl (\<lambda>n ch. n * 10 + digitVal ch) 0 (c # r) = nat (- i)"
    using digitsOf_value [of "nat (- i)"] cr by simp
  have d: "list_all isDigit (c # r)"
    using digitsOf_digits [of "nat (- i)"] cr by simp
  have le: "\<not> (2 :: nat) ^ 63 < nat (- i)"
    using assms(1) True by (simp add: nat_less_iff)
  from True show ?thesis
    unfolding Itoa_def Atoi_def
    using v d le cr by (simp add: Let_def del: foldl_Cons list.pred_inject)
next
  case False
  obtain c r where cr: "digitsOf (nat i) = c # r" "c \<noteq> CHR ''-''" "c \<noteq> CHR ''+''"
    using digitsOf_Cons [of "nat i"] by blast
  have v: "foldl (\<lambda>n ch. n * 10 + digitVal ch) 0 (c # r) = nat i"
    using digitsOf_value [of "nat i"] cr by simp
  have d: "list_all isDigit (c # r)"
    using digitsOf_digits [of "nat i"] cr by simp
  have lt: "\<not> (2 :: nat) ^ 63 \<le> nat i"
    using assms(2) False by (simp add: le_nat_iff)
  from False show ?thesis
    unfolding Itoa_def Atoi_def
    using v d lt cr by (simp add: Let_def del: foldl_Cons list.pred_inject)
qed

lemma Atoi_Itoa_int32: "Atoi (Itoa (sint (r :: 32 word))) = Ok (sint r)"
proof (rule Atoi_Itoa)
  have "- (2 ^ 31) \<le> sint r" and "sint r < 2 ^ 31"
    using sint_ge [of r] sint_lt [of r] by simp_all
  then show "- (2 ^ 63) \<le> sint r" and "sint r < 2 ^ 63" by simp_all
qed


text \<open>
  The round trip for every replica count other than 0; the other annotations are as
  they were.
\<close>

lemma suspend_resume_any_count:
  assumes "objects c (ns, nm) = Some (a, Some r)" and "r \<noteq> 0"
    and "ToggleDeployment c ns nm DISABLED = (Ok (), c1)"
    and "ToggleDeployment c1 ns nm ENABLED = (Ok (), c2)"
  shows "\<exists>m. a = Some m
           \<and> objects c2 (ns, nm) = Some (Some (m(REPLICAS_MEMORY_ANNOTATION := None)), Some r)"
proof -
  from ToggleDeployment_Ok [OF assms(3)] obtain c0
    where c0: "objects c0 = objects c" "toggleAttempt ns nm DISABLED c0 = (Ok (), c1)"
    by blast
  from assms(1) c0(1) have "objects c0 (ns, nm) = Some (a, Some r)" by simp
  from toggleAttempt_suspend_Ok [OF this assms(2) c0(2)] obtain m
    where m: "a = Some m"
      and o1: "objects c1 = (objects c0)((ns, nm) \<mapsto>
                 (Some (m(REPLICAS_MEMORY_ANNOTATION \<mapsto> Itoa (sint r))), Some 0))"
    by auto
  from ToggleDeployment_Ok [OF assms(4)] obtain c0'
    where c0': "objects c0' = objects c1" "toggleAttempt ns nm ENABLED c0' = (Ok (), c2)"
    by blast
  let ?m1 = "m(REPLICAS_MEMORY_ANNOTATION \<mapsto> Itoa (sint r))"
  from o1 c0'(1) have "objects c0' (ns, nm) = Some (Some ?m1, Some 0)" by simp
  from toggleAttempt_resume_Ok [OF this _ Atoi_Itoa_int32 c0'(2)]
  have "objects c2 (ns, nm) =
          Some (Some (?m1(REPLICAS_MEMORY_ANNOTATION := None)), Some (word_of_int (sint r)))"
    by simp
  with m show ?thesis by simp
qed

text \<open>With an annotation map no call of \<open>ToggleDeployment\<close> panics, whatever the API answers.\<close>

lemma ToggleDeployment_no_panic_with_annotations:
  assumes "objects c (ns, nm) = Some (Some m, Some r)"
  shows "fst (ToggleDeployment c ns nm t) \<noteq> Panics p"
proof -
  let ?P = "\<lambda>c'. \<exists>m' r'. objects c' (ns, nm) = Some (Some m', Some r')"
  have "?P (snd (retryLoop 5 (toggleAttempt ns nm t) None c))
        \<and> (\<forall>p. fst (retryLoop 5 (toggleAttempt ns nm t) None c) \<noteq> Panics p)"
  proof (rule retryLoop_invariant [where P = ?P])
    fix c' res c''
    assume P: "?P c'" and att: "toggleAttempt ns nm t c' = (res, c'')"
    then obtain m' r' where o: "objects c' (ns, nm) = Some (Some m', Some r')" by blast
    have np: "\<forall>p. res \<noteq> Panics p"
      using toggleAttempt_no_panic_with_annotations [OF o, of t] att by simp
    have "?P c''"
      using att o unfolding toggleAttempt_def
      by (auto simp: Get_def mapSet_def mapDelete_def
               split: result.splits option.splits if_splits dest!: Update_cases)
    with np show "?P c'' \<and> (\<forall>p. res \<noteq> Panics p)" by simp
  next
    from assms show "?P c" by blast
  qed
  then show ?thesis
    by (simp add: ToggleDeployment_fst split: result.splits)
qed

end
